theory Spec2Isabelle
  imports Main "HOL-Library.Sublist" "HOL-Library.Multiset" "HOL-Library.AList" "HOL-Library.Word"
begin

section \<open>The CircleCI source of trufflehog (pkg/sources/circleci/circleci.go)\<close>

text \<open>
  A shallow embedding of \<^verbatim>\<open>circleci.go\<close>. A Go \<^verbatim>\<open>string\<close> and a Go \<^verbatim>\<open>[]byte\<close> are both
  sequences of bytes, modelled as \<open>char list\<close> (an Isabelle \<open>char\<close> is one byte).
  The Go \<^verbatim>\<open>int\<close> and \<^verbatim>\<open>int64\<close> fields that the program only copies and prints
  (build number, status code, source and job identifiers) are \<open>int\<close>: no arithmetic is done on
  them, and the conversion \<^verbatim>\<open>int64(bld.BuildNum)\<close> keeps the value. The two \<^verbatim>\<open>uint64\<close>
  counters that are incremented are \<open>64 word\<close>.
\<close>

type_synonym bytes = "char list"

subsection \<open>Library functions of package bytes\<close>

text \<open>
  \<^verbatim>\<open>bytes.Contains(b, sub)\<close>: \<open>sub\<close> occurs in \<open>b\<close> at some position.
\<close>

fun bytes_Contains :: "bytes \<Rightarrow> bytes \<Rightarrow> bool" where
  "bytes_Contains [] sub = (sub = [])"
| "bytes_Contains (c # cs) sub = (prefix sub (c # cs) \<or> bytes_Contains cs sub)"

text \<open>
  \<^verbatim>\<open>bytes.Split(s, sep)\<close> for a non-empty separator: the segments between the
  non-overlapping occurrences of \<open>sep\<close>, found from the left; an input without \<open>sep\<close>
  (the empty input too) gives the one segment \<open>s\<close>. The program calls it with the
  one-byte separator \<^verbatim>\<open>"\n"\<close> only; Go's special case of the empty separator (one segment
  per UTF-8 sequence) is outside this model.
\<close>

function bytes_Split :: "bytes \<Rightarrow> bytes \<Rightarrow> bytes list" where
  "bytes_Split [] sep = [[]]"
| "bytes_Split (c # cs) sep =
     (if sep \<noteq> [] \<and> prefix sep (c # cs)
      then [] # bytes_Split (drop (length sep) (c # cs)) sep
      else (case bytes_Split cs sep of
              [] \<Rightarrow> [[c]]
            | l # ls \<Rightarrow> (c # l) # ls))"
  by pat_completeness auto
termination
  by (relation "measure (\<lambda>(s, sep). length s)") (auto simp: neq_Nil_conv)

text \<open>\<^verbatim>\<open>bytes.Join(s, sep)\<close>: the elements of \<open>s\<close> with \<open>sep\<close> between them.\<close>

fun bytes_Join :: "bytes list \<Rightarrow> bytes \<Rightarrow> bytes" where
  "bytes_Join [] sep = []"
| "bytes_Join [x] sep = x"
| "bytes_Join (x # y # r) sep = x @ sep @ bytes_Join (y # r) sep"

subsection \<open>removeCircleSha1Line\<close>

definition newline :: bytes where
  "newline = [CHR 0x0A]"

definition marker :: bytes where
  "marker = ''CIRCLE_SHA1=''"

text \<open>
  The loop of the source appends to \<open>result\<close> each line that does not contain the marker;
  it is the \<open>foldl\<close> below, started from the empty \<open>result\<close>.
\<close>

definition removeCircleSha1Line :: "bytes \<Rightarrow> bytes" where
  "removeCircleSha1Line input =
     (let lines = bytes_Split input newline;
          result = foldl (\<lambda>result line.
                      if \<not> bytes_Contains line marker then result @ [line] else result)
                    [] lines
      in bytes_Join result newline)"

text \<open>
  The sanitizer as the specification words it: split on the newline, drop every line that
  contains the marker, rejoin with the newline.
\<close>

definition sanitize_spec :: "bytes \<Rightarrow> bytes" where
  "sanitize_spec x =
     bytes_Join (filter (\<lambda>l. \<not> bytes_Contains l marker) (bytes_Split x newline)) newline"

subsection \<open>Formatting an integer with the verb \<^verbatim>\<open>%d\<close>\<close>

function digits :: "nat \<Rightarrow> string" where
  "digits n = (if n < 10 then [''0123456789'' ! n]
               else digits (n div 10) @ [''0123456789'' ! (n mod 10)])"
  by pat_completeness auto
termination
  by (relation "measure id") auto

declare digits.simps [simp del]

definition fmt_d :: "int \<Rightarrow> string" where
  "fmt_d i = (if i < 0 then CHR ''-'' # digits (nat (- i)) else digits (nat i))"

subsection \<open>Data model\<close>

record Source =
  name :: string
  token :: string
  sourceId :: int
  jobId :: int
  verify :: bool
  jobPool :: int \<comment> \<open>the limit given to the errgroup by \<^verbatim>\<open>SetLimit\<close>\<close>
  client :: int \<comment> \<open>the timeout given to \<^verbatim>\<open>common.RetryableHttpClientTimeout\<close>\<close>

datatype SourceType = SOURCE_TYPE_CIRCLECI

definition Type :: "Source \<Rightarrow> SourceType" where
  "Type s = SOURCE_TYPE_CIRCLECI"

definition SourceID :: "Source \<Rightarrow> int" where
  "SourceID s = sourceId s"

definition JobID :: "Source \<Rightarrow> int" where
  "JobID s = jobId s"

record project =
  VCS :: string
  Username :: string
  RepoName :: string

record build =
  BuildNum :: int

record action =
  Index :: int
  OutputURL :: string

record buildStep =
  Name :: string
  Actions :: "action list"

text \<open>
  The errors of the program. The first four are made by the libraries (URL parsing in
  \<^verbatim>\<open>http.NewRequest\<close>, the HTTP client and the reading of a body, the JSON decoder, the
  protobuf unmarshaller) and carry the library's message; the others are the ones the source
  builds with \<^verbatim>\<open>fmt.Errorf\<close> and \<^verbatim>\<open>errors.WrapPrefix\<close>, the wrapped error last.
\<close>

datatype error =
    UrlError string
  | TransportError string
  | DecodeError string
  | UnmarshalError string
  | InvalidCredentials int
  | ErrorGettingProjects error
  | ErrorGettingBuilds string error
  | ErrorGettingSteps int error
  | ErrorChunkingAction action error
  | ErrorUnmarshallingConnection error

text \<open>
  \<^verbatim>\<open>source_metadatapb.CircleCI\<close> and \<^verbatim>\<open>sources.Chunk\<close>, with the fields the source fills.
  The metadata's field \<^verbatim>\<open>Username\<close> is \<open>md_Username\<close> here and the chunk's field
  \<^verbatim>\<open>SourceID\<close> is \<open>Chunk_SourceID\<close>, the names being taken by the project's field and by
  the method of the source.
\<close>

record CircleCI_MetaData =
  VcsType :: string
  md_Username :: string
  Repository :: string
  BuildNumber :: int
  BuildStep :: string
  Link :: string

record Chunk =
  SourceType :: SourceType
  SourceName :: string
  Chunk_SourceID :: int
  Data :: bytes
  SourceMetadata :: CircleCI_MetaData
  Verify :: bool

subsection \<open>The error aggregator\<close>

text \<open>
  The mutex only serialises the appends; it has no content of its own. \<open>newScanErrors\<close>
  allocates an empty slice whose capacity is the number of projects.
\<close>

record scanErrors =
  count :: "64 word"
  errors :: "error list"

definition newScanErrors :: "nat \<Rightarrow> scanErrors" where
  "newScanErrors projects = \<lparr>count = 0, errors = []\<rparr>"

definition add :: "scanErrors \<Rightarrow> error \<Rightarrow> scanErrors" where
  "add s err = s\<lparr>count := count s + 1, errors := errors s @ [err]\<rparr>"

subsection \<open>The remote API\<close>

record request =
  Method :: string
  URL :: string
  Header :: "(string \<times> string) list"

record response =
  StatusCode :: int
  Body :: "string + bytes" \<comment> \<open>\<open>Inl m\<close>: reading the body fails with message \<open>m\<close>\<close>

text \<open>
  What the program does not contain is a parameter: whether \<^verbatim>\<open>http.NewRequest\<close> can parse
  a URL (\<open>url_Parse\<close> gives the message of the error, if any), the answer of the HTTP
  client to a request (\<open>Inl m\<close>: the transport fails with message \<open>m\<close>), and the JSON
  decoder at the three types the program decodes into (\<open>Inl m\<close>: the body does not decode).
\<close>

record env =
  url_Parse :: "string \<Rightarrow> string option"
  Do :: "request \<Rightarrow> string + response"
  decode_projects :: "bytes \<Rightarrow> string + project list"
  decode_builds :: "bytes \<Rightarrow> string + build list"
  decode_buildRes :: "bytes \<Rightarrow> string + buildStep list"

definition baseURL :: string where
  "baseURL = ''https://circleci.com/api/v1.1/''"

definition http_NewRequest :: "env \<Rightarrow> string \<Rightarrow> string \<Rightarrow> error + request" where
  "http_NewRequest env method url =
     (case url_Parse env url of
        Some m \<Rightarrow> Inl (UrlError m)
      | None \<Rightarrow> Inr \<lparr>Method = method, URL = url, Header = []\<rparr>)"

text \<open>
  \<^verbatim>\<open>req.Header.Set(key, value)\<close> replaces the values of the key. The two keys the
  program sets are already in canonical form.
\<close>

definition Header_Set :: "string \<Rightarrow> string \<Rightarrow> request \<Rightarrow> request" where
  "Header_Set key v req = req\<lparr>Header := AList.update key v (Header req)\<rparr>"

text \<open>\<^verbatim>\<open>json.NewDecoder(res.Body).Decode(&v)\<close> and \<^verbatim>\<open>io.ReadAll(res.Body)\<close>.\<close>

definition json_Decode :: "(bytes \<Rightarrow> string + 'a) \<Rightarrow> response \<Rightarrow> error + 'a" where
  "json_Decode dec res =
     (case Body res of
        Inl m \<Rightarrow> Inl (TransportError m)
      | Inr b \<Rightarrow> (case dec b of Inl m \<Rightarrow> Inl (DecodeError m) | Inr v \<Rightarrow> Inr v))"

definition io_ReadAll :: "response \<Rightarrow> error + bytes" where
  "io_ReadAll res = (case Body res of Inl m \<Rightarrow> Inl (TransportError m) | Inr b \<Rightarrow> Inr b)"

subsection \<open>Effects\<close>

text \<open>
  What a run does to the world outside of the goroutine that does it, in the order it does
  it: a request handed to the HTTP client, a chunk sent on \<^verbatim>\<open>chunksChan\<close>, an error given
  to \<^verbatim>\<open>scanErrs.add\<close>, and the increment of the counter \<^verbatim>\<open>scanned\<close>. Each operation returns
  the list of its effects beside its result.
\<close>

datatype effect = Request request | Send Chunk | AddErr error | Scanned

definition requests :: "effect list \<Rightarrow> request list" where
  "requests tr = concat (map (\<lambda>x. case x of Request r \<Rightarrow> [r] | _ \<Rightarrow> []) tr)"

definition sent :: "effect list \<Rightarrow> Chunk list" where
  "sent tr = concat (map (\<lambda>x. case x of Send c \<Rightarrow> [c] | _ \<Rightarrow> []) tr)"

definition recorded :: "effect list \<Rightarrow> error list" where
  "recorded tr = concat (map (\<lambda>x. case x of AddErr e \<Rightarrow> [e] | _ \<Rightarrow> []) tr)"

subsection \<open>The four calls\<close>

definition projects :: "env \<Rightarrow> Source \<Rightarrow> effect list \<times> (error + project list)" where
  "projects env s =
     (let reqURL = baseURL @ ''projects'' in
      case http_NewRequest env ''GET'' reqURL of
        Inl err \<Rightarrow> ([], Inl err)
      | Inr req0 \<Rightarrow>
          (let req = Header_Set ''Accept'' ''application/json''
                       (Header_Set ''Circle-Token'' (token s) req0)
           in ([Request req],
               case Do env req of
                 Inl m \<Rightarrow> Inl (TransportError m)
               | Inr res \<Rightarrow>
                   if StatusCode res > 399 \<and> StatusCode res < 500
                   then Inl (InvalidCredentials (StatusCode res))
                   else json_Decode (decode_projects env) res)))"

definition buildsForProject ::
  "env \<Rightarrow> Source \<Rightarrow> project \<Rightarrow> effect list \<times> (error + build list)" where
  "buildsForProject env s proj =
     (let reqURL = baseURL @ ''project/'' @ VCS proj @ ''/'' @ Username proj @ ''/''
                     @ RepoName proj in
      case http_NewRequest env ''GET'' reqURL of
        Inl err \<Rightarrow> ([], Inl err)
      | Inr req0 \<Rightarrow>
          (let req = Header_Set ''Accept'' ''application/json''
                       (Header_Set ''Circle-Token'' (token s) req0)
           in ([Request req],
               case Do env req of
                 Inl m \<Rightarrow> Inl (TransportError m)
               | Inr res \<Rightarrow> json_Decode (decode_builds env) res)))"

definition stepsForBuild ::
  "env \<Rightarrow> Source \<Rightarrow> project \<Rightarrow> build \<Rightarrow> effect list \<times> (error + buildStep list)" where
  "stepsForBuild env s proj bld =
     (let reqURL = baseURL @ ''project/'' @ VCS proj @ ''/'' @ Username proj @ ''/''
                     @ RepoName proj @ ''/'' @ fmt_d (BuildNum bld) in
      case http_NewRequest env ''GET'' reqURL of
        Inl err \<Rightarrow> ([], Inl err)
      | Inr req0 \<Rightarrow>
          (let req = Header_Set ''Accept'' ''application/json''
                       (Header_Set ''Circle-Token'' (token s) req0)
           in ([Request req],
               case Do env req of
                 Inl m \<Rightarrow> Inl (TransportError m)
               | Inr res \<Rightarrow> json_Decode (decode_buildRes env) res)))"

definition chunkAction ::
  "env \<Rightarrow> Source \<Rightarrow> project \<Rightarrow> build \<Rightarrow> action \<Rightarrow> string \<Rightarrow> effect list \<times> error option" where
  "chunkAction env s proj bld act stepName =
     (case http_NewRequest env ''GET'' (OutputURL act) of
        Inl err \<Rightarrow> ([], Some err)
      | Inr req \<Rightarrow>
          (case Do env req of
             Inl m \<Rightarrow> ([Request req], Some (TransportError m))
           | Inr res \<Rightarrow>
               (case io_ReadAll res of
                  Inl err \<Rightarrow> ([Request req], Some err)
                | Inr logOutput \<Rightarrow>
                    (let linkURL = ''https://app.circleci.com/pipelines/'' @ VCS proj @ ''/''
                                     @ Username proj @ ''/'' @ RepoName proj @ ''/''
                                     @ fmt_d (BuildNum bld);
                         chunk = \<lparr>SourceType = Type s,
                                  SourceName = name s,
                                  Chunk_SourceID = SourceID s,
                                  Data = removeCircleSha1Line logOutput,
                                  SourceMetadata =
                                    \<lparr>VcsType = VCS proj,
                                     md_Username = Username proj,
                                     Repository = RepoName proj,
                                     BuildNumber = BuildNum bld,
                                     BuildStep = stepName,
                                     Link = linkURL\<rparr>,
                                  Verify = verify s\<rparr>
                     in ([Request req, Send chunk], None)))))"

subsection \<open>The task of one project\<close>

text \<open>
  The function literal that \<open>Chunks\<close> hands to the pool for each project, as three nested
  \<^verbatim>\<open>range\<close> loops. A loop returns its effects and whether the task has returned from
  inside it (after recording the error); the task always returns \<^verbatim>\<open>nil\<close> to the pool.
\<close>

fun actionsLoop ::
  "env \<Rightarrow> Source \<Rightarrow> project \<Rightarrow> build \<Rightarrow> string \<Rightarrow> action list \<Rightarrow> effect list \<times> bool" where
  "actionsLoop env s proj bld stepName [] = ([], False)"
| "actionsLoop env s proj bld stepName (act # acts) =
     (case chunkAction env s proj bld act stepName of
        (t, Some err) \<Rightarrow> (t @ [AddErr (ErrorChunkingAction act err)], True)
      | (t, None) \<Rightarrow>
          (case actionsLoop env s proj bld stepName acts of (t', r) \<Rightarrow> (t @ t', r)))"

fun stepsLoop ::
  "env \<Rightarrow> Source \<Rightarrow> project \<Rightarrow> build \<Rightarrow> buildStep list \<Rightarrow> effect list \<times> bool" where
  "stepsLoop env s proj bld [] = ([], False)"
| "stepsLoop env s proj bld (step # steps) =
     (case actionsLoop env s proj bld (Name step) (Actions step) of
        (t, True) \<Rightarrow> (t, True)
      | (t, False) \<Rightarrow>
          (case stepsLoop env s proj bld steps of (t', r) \<Rightarrow> (t @ t', r)))"

fun buildsLoop :: "env \<Rightarrow> Source \<Rightarrow> project \<Rightarrow> build list \<Rightarrow> effect list \<times> bool" where
  "buildsLoop env s proj [] = ([], False)"
| "buildsLoop env s proj (bld # builds) =
     (case stepsForBuild env s proj bld of
        (t, Inl err) \<Rightarrow> (t @ [AddErr (ErrorGettingSteps (BuildNum bld) err)], True)
      | (t, Inr buildSteps) \<Rightarrow>
          (case stepsLoop env s proj bld buildSteps of
             (t', True) \<Rightarrow> (t @ t', True)
           | (t', False) \<Rightarrow>
               (case buildsLoop env s proj builds of (t'', r) \<Rightarrow> (t @ t' @ t'', r))))"

definition projectTask :: "env \<Rightarrow> Source \<Rightarrow> project \<Rightarrow> effect list" where
  "projectTask env s proj =
     (case buildsForProject env s proj of
        (t, Inl err) \<Rightarrow> t @ [AddErr (ErrorGettingBuilds (RepoName proj) err)]
      | (t, Inr builds) \<Rightarrow>
          (case buildsLoop env s proj builds of
             (t', True) \<Rightarrow> t @ t'
           | (t', False) \<Rightarrow> t @ t' @ [Scanned]))"

subsection \<open>Chunks\<close>

text \<open>
  The tasks run as goroutines of the pool and touch nothing of each other: they meet only in
  the channel, the aggregator and the counter. So a run is an interleaving of the effect
  lists of its tasks. The scheduler's choices are the parameter \<open>sched\<close>: each entry names
  the task that does its next effect (an entry naming no task, or a finished one, is
  skipped); when the entries are used up the unfinished tasks run to their end in the order
  of the listing. Every interleaving comes from some \<open>sched\<close>; a limit on the pool only
  excludes some of them. The pool is taken to run every task it is given and \<^verbatim>\<open>Wait\<close> to
  return once all have ended, and the receiver of the channel to take every chunk.
\<close>

fun interleave :: "nat list \<Rightarrow> 'a list list \<Rightarrow> 'a list" where
  "interleave [] ts = concat ts"
| "interleave (i # sched) ts =
     (if i < length ts
      then (case ts ! i of
              [] \<Rightarrow> interleave sched ts
            | x # r \<Rightarrow> x # interleave sched (ts[i := r]))
      else interleave sched ts)"

definition Chunks :: "env \<Rightarrow> Source \<Rightarrow> nat list \<Rightarrow> error option \<times> effect list" where
  "Chunks env s sched =
     (case projects env s of
        (t, Inl err) \<Rightarrow> (Some (ErrorGettingProjects err), t)
      | (t, Inr projs) \<Rightarrow> (None, t @ interleave sched (map (projectTask env s) projs)))"

text \<open>
  The aggregator at the end of a run: \<open>newScanErrors\<close> for the listed projects, then one
  \<open>add\<close> for each recorded error, in the order of the run.
\<close>

definition scanErrs_after :: "nat \<Rightarrow> effect list \<Rightarrow> scanErrors" where
  "scanErrs_after n tr = foldl add (newScanErrors n) (recorded tr)"

subsection \<open>Init\<close>

text \<open>
  \<^verbatim>\<open>sourcespb.CircleCI\<close> is generated code that is not part of the file: its \<^verbatim>\<open>Credential\<close>
  is an interface value, nil or a \<^verbatim>\<open>*CircleCI_Token\<close> holding the token, and the type switch
  of \<open>Init\<close> has no case for anything else. \<^verbatim>\<open>anypb.UnmarshalTo\<close> is the parameter
  \<open>unmarshal\<close>.
\<close>

datatype Credential = Credential_nil | CircleCI_Token string | Credential_other

record CircleCI_conn =
  Credential :: Credential

definition Init ::
  "('any \<Rightarrow> string + CircleCI_conn) \<Rightarrow> Source \<Rightarrow> string \<Rightarrow> int \<Rightarrow> int \<Rightarrow> bool \<Rightarrow> 'any \<Rightarrow> int
     \<Rightarrow> error option \<times> Source" where
  "Init unmarshal s0 name' jobId' sourceId' verify' connection concurrency =
     (let s = s0\<lparr>name := name', sourceId := sourceId', jobId := jobId', verify := verify',
                 jobPool := concurrency, client := 3\<rparr>
      in case unmarshal connection of
           Inl m \<Rightarrow> (Some (ErrorUnmarshallingConnection (UnmarshalError m)), s)
         | Inr conn \<Rightarrow>
             (case Credential conn of
                CircleCI_Token t \<Rightarrow> (None, s\<lparr>token := t\<rparr>)
              | _ \<Rightarrow> (None, s)))"

subsection \<open>The project walk as the specification words it\<close>

text \<open>
  The walk of a project is a sequence of stages: the listing of its builds, then for each
  build the listing of its steps followed by one stage for each action of each step, in
  order. A stage has the effects of its call and the error to record if the call fails.
  The stages are run until the first one that fails; its error is recorded and the project
  is abandoned. A walk that meets no failure counts the project as scanned.
\<close>

type_synonym stage = "effect list \<times> error option"

definition action_stage ::
  "env \<Rightarrow> Source \<Rightarrow> project \<Rightarrow> build \<Rightarrow> string \<Rightarrow> action \<Rightarrow> stage" where
  "action_stage env s proj bld stepName act =
     (case chunkAction env s proj bld act stepName of
        (t, None) \<Rightarrow> (t, None)
      | (t, Some err) \<Rightarrow> (t, Some (ErrorChunkingAction act err)))"

definition build_stages :: "env \<Rightarrow> Source \<Rightarrow> project \<Rightarrow> build \<Rightarrow> stage list" where
  "build_stages env s proj bld =
     (case stepsForBuild env s proj bld of
        (t, Inl err) \<Rightarrow> [(t, Some (ErrorGettingSteps (BuildNum bld) err))]
      | (t, Inr steps) \<Rightarrow>
          (t, None) # concat (map (\<lambda>step. map (action_stage env s proj bld (Name step))
                                              (Actions step)) steps))"

definition project_stages :: "env \<Rightarrow> Source \<Rightarrow> project \<Rightarrow> stage list" where
  "project_stages env s proj =
     (case buildsForProject env s proj of
        (t, Inl err) \<Rightarrow> [(t, Some (ErrorGettingBuilds (RepoName proj) err))]
      | (t, Inr builds) \<Rightarrow> (t, None) # concat (map (build_stages env s proj) builds))"

fun run_stages :: "stage list \<Rightarrow> effect list \<times> bool" where
  "run_stages [] = ([], False)"
| "run_stages ((t, Some err) # rest) = (t @ [AddErr err], True)"
| "run_stages ((t, None) # rest) = (case run_stages rest of (t', r) \<Rightarrow> (t @ t', r))"

definition walk_spec :: "env \<Rightarrow> Source \<Rightarrow> project \<Rightarrow> effect list" where
  "walk_spec env s proj =
     (case run_stages (project_stages env s proj) of
        (t, True) \<Rightarrow> t
      | (t, False) \<Rightarrow> t @ [Scanned])"

subsection \<open>A test double of the remote API\<close>

text \<open>
  Four projects. Every build listing has the one build 42, except the listing of the second
  project, whose body does not decode. Every build has the one step \<open>test\<close> with one action,
  whose log has a line with the marker; the build of the fourth project has a step before
  it, whose first action has an output URL that \<^verbatim>\<open>http.NewRequest\<close> cannot parse.
\<close>

definition demo_src :: Source where
  "demo_src = \<lparr>name = ''circleci'', token = ''tok'', sourceId = 1, jobId = 2, verify = True,
               jobPool = 2, client = 3\<rparr>"

definition projA :: project where
  "projA = \<lparr>VCS = ''github'', Username = ''acme'', RepoName = ''api''\<rparr>"

definition projB :: project where
  "projB = \<lparr>VCS = ''github'', Username = ''acme'', RepoName = ''web''\<rparr>"

definition projC :: project where
  "projC = \<lparr>VCS = ''github'', Username = ''acme'', RepoName = ''cli''\<rparr>"

definition projD :: project where
  "projD = \<lparr>VCS = ''github'', Username = ''acme'', RepoName = ''ops''\<rparr>"

definition demo_action :: action where
  "demo_action = \<lparr>Index = 0, OutputURL = ''https://logs.example/out''\<rparr>"

definition bad_action :: action where
  "bad_action = \<lparr>Index = 0, OutputURL = '':bad''\<rparr>"

definition demo_log :: bytes where
  "demo_log = ''line1'' @ newline @ ''CIRCLE_SHA1=abcd'' @ newline @ ''line3''"

definition demo_env :: env where
  "demo_env =
     \<lparr>url_Parse = (\<lambda>url. if url = '':bad'' then Some ''missing protocol scheme'' else None),
      Do = (\<lambda>req. Inr \<lparr>StatusCode = 200,
                       Body = Inr (if URL req = ''https://logs.example/out'' then demo_log
                                   else URL req)\<rparr>),
      decode_projects = (\<lambda>b. Inr [projA, projB, projC, projD]),
      decode_builds = (\<lambda>b. if b = ''https://circleci.com/api/v1.1/project/github/acme/web''
                            then Inl ''unexpected end of JSON input''
                            else Inr [\<lparr>BuildNum = 42\<rparr>]),
      decode_buildRes =
        (\<lambda>b. if b = ''https://circleci.com/api/v1.1/project/github/acme/ops/42''
              then Inr [\<lparr>Name = ''build'', Actions = [bad_action, demo_action]\<rparr>,
                        \<lparr>Name = ''test'', Actions = [demo_action]\<rparr>]
              else Inr [\<lparr>Name = ''test'', Actions = [demo_action]\<rparr>])\<rparr>"

text \<open>The chunk of the first project's only action.\<close>

definition demo_chunk :: Chunk where
  "demo_chunk =
     \<lparr>SourceType = SOURCE_TYPE_CIRCLECI, SourceName = ''circleci'', Chunk_SourceID = 1,
      Data = ''line1'' @ newline @ ''line3'',
      SourceMetadata =
        \<lparr>VcsType = ''github'', md_Username = ''acme'', Repository = ''api'', BuildNumber = 42,
         BuildStep = ''test'', Link = ''https://app.circleci.com/pipelines/github/acme/api/42''\<rparr>,
      Verify = True\<rparr>"




text \<open>A connection that unmarshals to a message without credential.\<close>

definition demo_unmarshal :: "unit \<Rightarrow> string + CircleCI_conn" where
  "demo_unmarshal connection = Inr \<lparr>Credential = Credential_nil\<rparr>"

section \<open>Properties\<close>

subsection \<open>Splitting and joining\<close>

lemma bytes_Contains_sublist: "bytes_Contains b sub \<longleftrightarrow> sublist sub b"
  by (induction b) (auto simp: sublist_Cons_right)

lemma bytes_Split_not_Nil: "bytes_Split s sep \<noteq> []"
  by (induction s sep rule: bytes_Split.induct) (auto split: list.splits)

lemma bytes_Split_no_sep: "n \<notin> set l \<Longrightarrow> bytes_Split l [n] = [l]"
  by (induction l) auto

lemma bytes_Split_append_sep:
  "n \<notin> set l \<Longrightarrow> bytes_Split (l @ n # r) [n] = l # bytes_Split r [n]"
  by (induction l) auto

lemma bytes_Split_line_no_sep: "l \<in> set (bytes_Split s [n]) \<Longrightarrow> n \<notin> set l"
proof (induction s arbitrary: l)
  case Nil
  then show ?case by simp
next
  case (Cons c cs)
  then show ?case
    using bytes_Split_not_Nil [of cs "[n]"]
    by (cases "bytes_Split cs [n]") (auto split: if_splits)
qed

lemma bytes_Join_Cons:
  "ls \<noteq> [] \<Longrightarrow> bytes_Join (l # ls) sep = l @ sep @ bytes_Join ls sep"
  by (cases ls) auto

lemma bytes_Split_Join:
  "ls \<noteq> [] \<Longrightarrow> (\<And>l. l \<in> set ls \<Longrightarrow> n \<notin> set l) \<Longrightarrow> bytes_Split (bytes_Join ls [n]) [n] = ls"
proof (induction ls)
  case Nil
  then show ?case by simp
next
  case (Cons l ls)
  show ?case
  proof (cases "ls = []")
    case True
    with Cons.prems show ?thesis by (simp add: bytes_Split_no_sep)
  next
    case False
    with Cons show ?thesis
      by (simp add: bytes_Join_Cons bytes_Split_append_sep)
  qed
qed

lemma bytes_Join_Split: "bytes_Join (bytes_Split s [n]) [n] = s"
proof (induction s)
  case Nil
  then show ?case by simp
next
  case (Cons c cs)
  then show ?case
    using bytes_Split_not_Nil [of cs "[n]"]
    by (cases "bytes_Split cs [n]"; cases "tl (bytes_Split cs [n])") (auto simp: bytes_Join_Cons)
qed

lemma foldl_append_filter:
  "foldl (\<lambda>result line. if P line then result @ [line] else result) acc ls = acc @ filter P ls"
  by (induction ls arbitrary: acc) auto

lemma removeCircleSha1Line_eq_spec: "removeCircleSha1Line x = sanitize_spec x"
  by (simp add: removeCircleSha1Line_def sanitize_spec_def foldl_append_filter)

subsection \<open>Interleavings, stages and effects\<close>

lemma concat_nth_Cons_mset:
  "i < length ts \<Longrightarrow> ts ! i = x # r \<Longrightarrow> mset (concat ts) = add_mset x (mset (concat (ts[i := r])))"
proof (induction ts arbitrary: i)
  case Nil
  then show ?case by simp
next
  case (Cons t ts)
  then show ?case by (cases i) auto
qed

lemma mset_interleave: "mset (interleave sched ts) = mset (concat ts)"
proof (induction sched arbitrary: ts)
  case Nil
  then show ?case by simp
next
  case (Cons i sched)
  show ?case
  proof (cases "i < length ts")
    case False
    then show ?thesis using Cons.IH by simp
  next
    case True
    show ?thesis
    proof (cases "ts ! i")
      case Nil
      then show ?thesis using True Cons.IH by simp
    next
      case (Cons x r)
      then show ?thesis
        using True Cons.IH [of "ts[i := r]"] concat_nth_Cons_mset [OF True Cons]
        by simp
    qed
  qed
qed




lemma run_stages_append:
  "run_stages (xs @ ys) =
     (case run_stages xs of
        (t, True) \<Rightarrow> (t, True)
      | (t, False) \<Rightarrow> (case run_stages ys of (t', r) \<Rightarrow> (t @ t', r)))"
  by (induction xs rule: run_stages.induct) (auto split: prod.splits bool.splits)

lemma actionsLoop_stages:
  "actionsLoop env s proj bld stepName acts =
     run_stages (map (action_stage env s proj bld stepName) acts)"
  by (induction acts) (auto simp: action_stage_def split: prod.splits option.splits)

lemma stepsLoop_stages:
  "stepsLoop env s proj bld steps =
     run_stages (concat (map (\<lambda>step. map (action_stage env s proj bld (Name step))
                                          (Actions step)) steps))"
  by (induction steps)
     (auto simp: actionsLoop_stages run_stages_append split: prod.splits bool.splits)

lemma buildsLoop_stages:
  "buildsLoop env s proj builds = run_stages (concat (map (build_stages env s proj) builds))"
  by (induction builds)
     (auto simp: stepsLoop_stages run_stages_append build_stages_def
           split: prod.splits bool.splits sum.splits)

lemma projectTask_walk_spec: "projectTask env s proj = walk_spec env s proj"
  by (auto simp: projectTask_def walk_spec_def project_stages_def buildsLoop_stages
           split: prod.splits bool.splits sum.splits)



lemma run_stages_effects:
  "x \<in> set (fst (run_stages xs)) \<Longrightarrow> (\<exists>st\<in>set xs. x \<in> set (fst st)) \<or> (\<exists>e. x = AddErr e)"
  by (induction xs rule: run_stages.induct) (auto split: prod.splits)

lemma recorded_append [simp]: "recorded (xs @ ys) = recorded xs @ recorded ys"
  by (simp add: recorded_def)

lemma sent_append [simp]: "sent (xs @ ys) = sent xs @ sent ys"
  by (simp add: sent_def)

lemma requests_append [simp]: "requests (xs @ ys) = requests xs @ requests ys"
  by (simp add: requests_def)

lemma recorded_simps [simp]:
  "recorded [] = []" "recorded (Request r # tr) = recorded tr" "recorded (Send c # tr) = recorded tr"
  "recorded (AddErr e # tr) = e # recorded tr" "recorded (Scanned # tr) = recorded tr"
  by (simp_all add: recorded_def)

lemma sent_simps [simp]:
  "sent [] = []" "sent (Request r # tr) = sent tr" "sent (Send c # tr) = c # sent tr"
  "sent (AddErr e # tr) = sent tr" "sent (Scanned # tr) = sent tr"
  by (simp_all add: sent_def)

lemma requests_simps [simp]:
  "requests [] = []" "requests (Request r # tr) = r # requests tr" "requests (Send c # tr) = requests tr"
  "requests (AddErr e # tr) = requests tr" "requests (Scanned # tr) = requests tr"
  by (simp_all add: requests_def)

lemma projects_effects:
  "fst (projects env s) = [] \<or> (\<exists>r. fst (projects env s) = [Request r])"
  by (simp add: projects_def Let_def split: sum.splits)

lemma buildsForProject_effects:
  "fst (buildsForProject env s proj) = [] \<or> (\<exists>r. fst (buildsForProject env s proj) = [Request r])"
  by (simp add: buildsForProject_def Let_def split: sum.splits)

lemma stepsForBuild_effects:
  "fst (stepsForBuild env s proj bld) = [] \<or> (\<exists>r. fst (stepsForBuild env s proj bld) = [Request r])"
  by (simp add: stepsForBuild_def Let_def split: sum.splits)





subsection \<open>The sanitizer\<close>

lemma sanitize_lines:
  "bytes_Split (sanitize_spec x) newline =
     (if filter (\<lambda>l. \<not> bytes_Contains l marker) (bytes_Split x newline) = [] then [[]]
      else filter (\<lambda>l. \<not> bytes_Contains l marker) (bytes_Split x newline))"
proof (cases "filter (\<lambda>l. \<not> bytes_Contains l marker) (bytes_Split x newline) = []")
  case True
  then show ?thesis by (simp add: sanitize_spec_def)
next
  case False
  have "\<And>l. l \<in> set (filter (\<lambda>l. \<not> bytes_Contains l marker) (bytes_Split x newline))
          \<Longrightarrow> CHR 0x0A \<notin> set l"
    using bytes_Split_line_no_sep [of _ x "CHR 0x0A"] by (simp add: newline_def)
  with False show ?thesis
    using bytes_Split_Join [of "filter (\<lambda>l. \<not> bytes_Contains l marker) (bytes_Split x newline)" "CHR 0x0A"]
    by (simp add: sanitize_spec_def newline_def)
qed

lemma empty_line_no_marker: "\<not> bytes_Contains [] marker"
  by (simp add: marker_def)

text \<open>
  C3. For every input, \<open>removeCircleSha1Line\<close> is exactly: split on the newline byte, drop
  the segments that contain the marker \<^verbatim>\<open>CIRCLE_SHA1=\<close>, join the others with the newline
  byte. Hence no line of the output contains the marker; the lines of the output are the
  marker-free lines of the input, all of them and in their order (empty first and last
  segments included); and when every line is dropped the output is empty, with no newline
  added.
\<close>

theorem removeCircleSha1Line_split_filter_join:
  "removeCircleSha1Line x = sanitize_spec x
   \<and> (\<forall>l\<in>set (bytes_Split (removeCircleSha1Line x) newline). \<not> bytes_Contains l marker)
   \<and> (filter (\<lambda>l. \<not> bytes_Contains l marker) (bytes_Split x newline) \<noteq> [] \<longrightarrow>
        bytes_Split (removeCircleSha1Line x) newline =
          filter (\<lambda>l. \<not> bytes_Contains l marker) (bytes_Split x newline))
   \<and> (filter (\<lambda>l. \<not> bytes_Contains l marker) (bytes_Split x newline) = [] \<longrightarrow>
        removeCircleSha1Line x = [])"
proof -
  let ?kept = "filter (\<lambda>l. \<not> bytes_Contains l marker) (bytes_Split x newline)"
  have eq: "removeCircleSha1Line x = sanitize_spec x"
    by (rule removeCircleSha1Line_eq_spec)
  have lines: "bytes_Split (removeCircleSha1Line x) newline = (if ?kept = [] then [[]] else ?kept)"
    by (simp only: eq sanitize_lines)
  have clean: "\<forall>l\<in>set (bytes_Split (removeCircleSha1Line x) newline). \<not> bytes_Contains l marker"
    using empty_line_no_marker by (simp add: lines)
  have same: "?kept \<noteq> [] \<longrightarrow> bytes_Split (removeCircleSha1Line x) newline = ?kept"
    by (simp add: lines)
  have none: "?kept = [] \<longrightarrow> removeCircleSha1Line x = []"
    by (simp add: eq sanitize_spec_def)
  show ?thesis
    using eq clean same none by blast
qed

text \<open>
  C7. The sanitizer is idempotent: sanitizing its own output changes no byte.
\<close>

theorem removeCircleSha1Line_idempotent:
  "removeCircleSha1Line (removeCircleSha1Line x) = removeCircleSha1Line x"
proof -
  let ?keep = "\<lambda>l. \<not> bytes_Contains l marker"
  show ?thesis
  proof (cases "filter ?keep (bytes_Split x newline) = []")
    case True
    then show ?thesis
      by (simp add: removeCircleSha1Line_eq_spec sanitize_spec_def empty_line_no_marker)
  next
    case False
    have "filter ?keep (bytes_Split (sanitize_spec x) newline) = filter ?keep (bytes_Split x newline)"
      using False by (simp add: sanitize_lines)
    then show ?thesis
      by (simp add: removeCircleSha1Line_eq_spec sanitize_spec_def [of "sanitize_spec x"])
         (simp add: sanitize_spec_def)
  qed
qed



theorem removeCircleSha1Line_split_filter_join_witness:
  "filter (\<lambda>l. \<not> bytes_Contains l marker) (bytes_Split demo_log newline) \<noteq> []
   \<and> bytes_Split (removeCircleSha1Line demo_log) newline = [''line1'', ''line3'']
   \<and> removeCircleSha1Line demo_log = ''line1'' @ newline @ ''line3''
   \<and> filter (\<lambda>l. \<not> bytes_Contains l marker) (bytes_Split ''CIRCLE_SHA1=abcd'' newline) = []
   \<and> removeCircleSha1Line ''CIRCLE_SHA1=abcd'' = []"
proof -
  have kept: "filter (\<lambda>l. \<not> bytes_Contains l marker) (bytes_Split demo_log newline)
                = [''line1'', ''line3'']"
    by code_simp
  have none: "filter (\<lambda>l. \<not> bytes_Contains l marker) (bytes_Split ''CIRCLE_SHA1=abcd'' newline) = []"
    by code_simp
  have ne: "filter (\<lambda>l. \<not> bytes_Contains l marker) (bytes_Split demo_log newline) \<noteq> []"
    by (simp only: kept list.distinct not_False_eq_True)
  have "bytes_Split (removeCircleSha1Line demo_log) newline =
          filter (\<lambda>l. \<not> bytes_Contains l marker) (bytes_Split demo_log newline)"
    using removeCircleSha1Line_split_filter_join [of demo_log] ne by blast
  then have lines: "bytes_Split (removeCircleSha1Line demo_log) newline = [''line1'', ''line3'']"
    by (simp only: kept)
  have whole: "removeCircleSha1Line demo_log = ''line1'' @ newline @ ''line3''"
    by code_simp
  have gone: "removeCircleSha1Line ''CIRCLE_SHA1=abcd'' = []"
    using removeCircleSha1Line_split_filter_join [of "''CIRCLE_SHA1=abcd''"] none by blast
  show ?thesis
    using ne lines whole none gone by blast
qed

theorem removeCircleSha1Line_idempotent_witness:
  "removeCircleSha1Line demo_log = ''line1'' @ newline @ ''line3''
   \<and> removeCircleSha1Line (''line1'' @ newline @ ''line3'') = ''line1'' @ newline @ ''line3''"
proof -
  have once: "removeCircleSha1Line demo_log = ''line1'' @ newline @ ''line3''"
    by code_simp
  have "removeCircleSha1Line (removeCircleSha1Line demo_log) = removeCircleSha1Line demo_log"
    by (rule removeCircleSha1Line_idempotent)
  then have "removeCircleSha1Line (''line1'' @ newline @ ''line3'') = ''line1'' @ newline @ ''line3''"
    by (simp only: once)
  with once show ?thesis by blast
qed

subsection \<open>The error aggregator\<close>

lemma foldl_add:
  "foldl add se es = \<lparr>count = count se + of_nat (length es), errors = errors se @ es\<rparr>"
  by (induction es arbitrary: se) (simp_all add: add_def)

text \<open>
  C9. After any sequence of \<open>add\<close> calls on a fresh aggregator, the slice holds exactly the
  added errors in the order added, and the counter is their number (a slice of Go is shorter
  than \<open>2 ^ 64\<close>, where the 64-bit counter would wrap). So it is at the end of a run, for
  the errors its tasks have recorded.
\<close>

theorem scanErrors_count_and_order:
  "errors (foldl add (newScanErrors n) es) = es
   \<and> count (foldl add (newScanErrors n) es) = of_nat (length (errors (foldl add (newScanErrors n) es)))
   \<and> (length es < 2 ^ 64 \<longrightarrow>
        unat (count (foldl add (newScanErrors n) es)) = length (errors (foldl add (newScanErrors n) es)))
   \<and> errors (scanErrs_after n tr) = recorded tr
   \<and> count (scanErrs_after n tr) = of_nat (length (recorded tr))"
  by (simp add: foldl_add newScanErrors_def scanErrs_after_def unat_of_nat)

theorem scanErrors_count_and_order_witness:
  "length [InvalidCredentials 401, DecodeError ''eof''] < (2::nat) ^ 64
   \<and> errors (foldl add (newScanErrors 3) [InvalidCredentials 401, DecodeError ''eof''])
       = [InvalidCredentials 401, DecodeError ''eof'']
   \<and> unat (count (foldl add (newScanErrors 3) [InvalidCredentials 401, DecodeError ''eof''])) = 2"
proof -
  have small: "length [InvalidCredentials 401, DecodeError ''eof''] < (2::nat) ^ 64"
    by simp
  show ?thesis
    using scanErrors_count_and_order [of 3 "[InvalidCredentials 401, DecodeError ''eof'']"] small
    by simp
qed

subsection \<open>Init\<close>

text \<open>
  C10. When the connection unmarshals and its credential is not a token credential,
  \<open>Init\<close> returns no error and leaves the stored token as it was: the empty string of a
  fresh source stays the empty string.
\<close>

theorem Init_without_token_credential:
  "unmarshal connection = Inr conn \<Longrightarrow> (\<forall>t. Credential conn \<noteq> CircleCI_Token t) \<Longrightarrow>
   fst (Init unmarshal s0 nm jid sid vfy connection concurrency) = None
   \<and> token (snd (Init unmarshal s0 nm jid sid vfy connection concurrency)) = token s0
   \<and> (token s0 = [] \<longrightarrow> token (snd (Init unmarshal s0 nm jid sid vfy connection concurrency)) = [])"
  by (cases "Credential conn") (simp_all add: Init_def)

theorem Init_without_token_credential_witness:
  "demo_unmarshal () = Inr \<lparr>Credential = Credential_nil\<rparr>
   \<and> (\<forall>t. Credential \<lparr>Credential = Credential_nil\<rparr> \<noteq> CircleCI_Token t)
   \<and> token (demo_src\<lparr>token := []\<rparr>) = []
   \<and> fst (Init demo_unmarshal (demo_src\<lparr>token := []\<rparr>) ''circleci'' 2 1 True () 4) = None
   \<and> token (snd (Init demo_unmarshal (demo_src\<lparr>token := []\<rparr>) ''circleci'' 2 1 True () 4)) = []"
proof -
  have um: "demo_unmarshal () = Inr \<lparr>Credential = Credential_nil\<rparr>"
    by (simp add: demo_unmarshal_def)
  have nt: "\<forall>t. Credential \<lparr>Credential = Credential_nil\<rparr> \<noteq> CircleCI_Token t"
    by simp
  have em: "token (demo_src\<lparr>token := []\<rparr>) = []"
    by simp
  show ?thesis
    using Init_without_token_credential
            [of demo_unmarshal "()" "\<lparr>Credential = Credential_nil\<rparr>" "demo_src\<lparr>token := []\<rparr>"
                "''circleci''" 2 1 True 4]
          um nt em
    by blast
qed

subsection \<open>The fatal failure and the isolated ones\<close>






subsection \<open>The requests and their headers\<close>

lemma listing_headers:
  "map_of (Header (Header_Set ''Accept'' ''application/json''
                     (Header_Set ''Circle-Token'' tok \<lparr>Method = m, URL = u, Header = []\<rparr>)))
          ''Circle-Token'' = Some tok
   \<and> map_of (Header (Header_Set ''Accept'' ''application/json''
                     (Header_Set ''Circle-Token'' tok \<lparr>Method = m, URL = u, Header = []\<rparr>)))
          ''Accept'' = Some ''application/json''"
  by (simp add: Header_Set_def)

lemma projects_requests:
  "r \<in> set (requests (fst (projects env s))) \<Longrightarrow>
   map_of (Header r) ''Circle-Token'' = Some (token s)
   \<and> map_of (Header r) ''Accept'' = Some ''application/json''"
  using listing_headers [of "token s"]
  by (auto simp: projects_def http_NewRequest_def Let_def split: option.splits)

lemma buildsForProject_requests:
  "r \<in> set (requests (fst (buildsForProject env s proj))) \<Longrightarrow>
   map_of (Header r) ''Circle-Token'' = Some (token s)
   \<and> map_of (Header r) ''Accept'' = Some ''application/json''"
  using listing_headers [of "token s"]
  by (auto simp: buildsForProject_def http_NewRequest_def Let_def split: option.splits)

lemma stepsForBuild_requests:
  "r \<in> set (requests (fst (stepsForBuild env s proj bld))) \<Longrightarrow>
   map_of (Header r) ''Circle-Token'' = Some (token s)
   \<and> map_of (Header r) ''Accept'' = Some ''application/json''"
  using listing_headers [of "token s"]
  by (auto simp: stepsForBuild_def http_NewRequest_def Let_def split: option.splits)

lemma chunkAction_requests:
  "r \<in> set (requests (fst (chunkAction env s proj bld act stepName))) \<Longrightarrow>
   r = \<lparr>Method = ''GET'', URL = OutputURL act, Header = []\<rparr>"
  by (auto simp: chunkAction_def http_NewRequest_def Let_def split: option.splits sum.splits)

text \<open>
  C4, as amended. Every request of the three listing calls carries the header
  \<^verbatim>\<open>Circle-Token\<close> with the token of the source and the header \<^verbatim>\<open>Accept\<close> with
  \<^verbatim>\<open>application/json\<close>. The request by which \<open>chunkAction\<close> fetches a log is the plain
  \<^verbatim>\<open>GET\<close> of the action's output URL, with no header.
\<close>

theorem listing_requests_carry_headers:
  "(r \<in> set (requests (fst (projects env s)))
      \<or> r \<in> set (requests (fst (buildsForProject env s proj)))
      \<or> r \<in> set (requests (fst (stepsForBuild env s proj bld)))
    \<longrightarrow> map_of (Header r) ''Circle-Token'' = Some (token s)
        \<and> map_of (Header r) ''Accept'' = Some ''application/json'')
   \<and> (r \<in> set (requests (fst (chunkAction env s proj bld act stepName)))
    \<longrightarrow> r = \<lparr>Method = ''GET'', URL = OutputURL act, Header = []\<rparr>)"
  using projects_requests [of r env s] buildsForProject_requests [of r env s proj]
    stepsForBuild_requests [of r env s proj bld]
    chunkAction_requests [of r env s proj bld act stepName]
  by blast

theorem listing_requests_carry_headers_witness:
  "\<lparr>Method = ''GET'', URL = ''https://circleci.com/api/v1.1/project/github/acme/api'',
     Header = [(''Circle-Token'', ''tok''), (''Accept'', ''application/json'')]\<rparr>
     \<in> set (requests (fst (buildsForProject demo_env demo_src projA)))
   \<and> map_of (Header \<lparr>Method = ''GET'',
                      URL = ''https://circleci.com/api/v1.1/project/github/acme/api'',
                      Header = [(''Circle-Token'', ''tok''), (''Accept'', ''application/json'')]\<rparr>)
        ''Circle-Token'' = Some (token demo_src)
   \<and> \<lparr>Method = ''GET'', URL = ''https://logs.example/out'', Header = []\<rparr>
     \<in> set (requests (fst (chunkAction demo_env demo_src projA \<lparr>BuildNum = 42\<rparr> demo_action ''test'')))
   \<and> \<lparr>Method = ''GET'', URL = ''https://logs.example/out'', Header = []\<rparr>
     = \<lparr>Method = ''GET'', URL = OutputURL demo_action, Header = []\<rparr>"
proof -
  have listed:
    "\<lparr>Method = ''GET'', URL = ''https://circleci.com/api/v1.1/project/github/acme/api'',
       Header = [(''Circle-Token'', ''tok''), (''Accept'', ''application/json'')]\<rparr>
       \<in> set (requests (fst (buildsForProject demo_env demo_src projA)))"
    by code_simp
  have fetched:
    "\<lparr>Method = ''GET'', URL = ''https://logs.example/out'', Header = []\<rparr>
       \<in> set (requests (fst (chunkAction demo_env demo_src projA \<lparr>BuildNum = 42\<rparr> demo_action ''test'')))"
    by code_simp
  show ?thesis
    using listing_requests_carry_headers
            [of "\<lparr>Method = ''GET'', URL = ''https://circleci.com/api/v1.1/project/github/acme/api'',
                   Header = [(''Circle-Token'', ''tok''), (''Accept'', ''application/json'')]\<rparr>"
                demo_env demo_src projA]
          listing_requests_carry_headers
            [of "\<lparr>Method = ''GET'', URL = ''https://logs.example/out'', Header = []\<rparr>"
                demo_env demo_src projA "\<lparr>BuildNum = 42\<rparr>" demo_action "''test''"]
          listed fetched
    by blast
qed

theorem log_fetch_without_headers_counterexample:
  "requests (fst (chunkAction demo_env demo_src projA \<lparr>BuildNum = 42\<rparr> demo_action ''test''))
     = [\<lparr>Method = ''GET'', URL = ''https://logs.example/out'', Header = []\<rparr>]
   \<and> \<lparr>Method = ''GET'', URL = ''https://logs.example/out'', Header = []\<rparr>
       \<in> set (requests (snd (Chunks demo_env demo_src [])))
   \<and> map_of (Header \<lparr>Method = ''GET'', URL = ''https://logs.example/out'', Header = []\<rparr>)
        ''Circle-Token'' = None
   \<and> map_of (Header \<lparr>Method = ''GET'', URL = ''https://logs.example/out'', Header = []\<rparr>)
        ''Accept'' = None"
  by code_simp

subsection \<open>The status of a response\<close>










subsection \<open>The walk of a project and the run\<close>

lemma set_interleave: "set (interleave sched ts) = set (concat ts)"
  using mset_interleave [of sched ts] by (rule mset_eq_setD)
















subsection \<open>The provenance of a chunk\<close>

lemma chunkAction_Send:
  "Send c \<in> set (fst (chunkAction env s proj bld act stepName)) \<Longrightarrow>
   SourceMetadata c =
     \<lparr>VcsType = VCS proj, md_Username = Username proj, Repository = RepoName proj,
      BuildNumber = BuildNum bld, BuildStep = stepName,
      Link = ''https://app.circleci.com/pipelines/'' @ VCS proj @ ''/'' @ Username proj @ ''/''
               @ RepoName proj @ ''/'' @ fmt_d (BuildNum bld)\<rparr>"
  by (auto simp: chunkAction_def Let_def split: sum.splits)

lemma build_stages_Send:
  assumes "st \<in> set (build_stages env s proj bld)" and "Send c \<in> set (fst st)"
  shows "\<exists>steps step act. snd (stepsForBuild env s proj bld) = Inr steps \<and> step \<in> set steps
           \<and> act \<in> set (Actions step)
           \<and> Send c \<in> set (fst (chunkAction env s proj bld act (Name step)))"
proof (cases "stepsForBuild env s proj bld")
  case (Pair t r)
  have quiet: "Send c \<notin> set t"
    using stepsForBuild_effects [of env s proj bld] Pair by auto
  show ?thesis
  proof (cases r)
    case (Inl err)
    with assms Pair quiet show ?thesis by (simp add: build_stages_def)
  next
    case (Inr steps)
    with assms Pair quiet obtain step act where
      "step \<in> set steps" "act \<in> set (Actions step)"
      "st = action_stage env s proj bld (Name step) act"
      by (auto simp: build_stages_def)
    moreover from this assms(2)
    have "Send c \<in> set (fst (chunkAction env s proj bld act (Name step)))"
      by (auto simp: action_stage_def split: prod.splits option.splits)
    ultimately show ?thesis using Pair Inr by auto
  qed
qed

lemma project_stages_Send:
  assumes "st \<in> set (project_stages env s proj)" and "Send c \<in> set (fst st)"
  shows "\<exists>builds bld steps step act.
           snd (buildsForProject env s proj) = Inr builds \<and> bld \<in> set builds
           \<and> snd (stepsForBuild env s proj bld) = Inr steps \<and> step \<in> set steps
           \<and> act \<in> set (Actions step)
           \<and> Send c \<in> set (fst (chunkAction env s proj bld act (Name step)))"
proof (cases "buildsForProject env s proj")
  case (Pair t r)
  have quiet: "Send c \<notin> set t"
    using buildsForProject_effects [of env s proj] Pair by auto
  show ?thesis
  proof (cases r)
    case (Inl err)
    with assms Pair quiet show ?thesis by (simp add: project_stages_def)
  next
    case (Inr builds)
    with assms Pair quiet obtain bld where
      "bld \<in> set builds" "st \<in> set (build_stages env s proj bld)"
      by (auto simp: project_stages_def)
    then show ?thesis
      using build_stages_Send [OF _ assms(2), of env s proj bld] Pair Inr by auto
  qed
qed

lemma projectTask_Send:
  assumes "Send c \<in> set (projectTask env s proj)"
  shows "\<exists>st\<in>set (project_stages env s proj). Send c \<in> set (fst st)"
proof (cases "run_stages (project_stages env s proj)")
  case (Pair t r)
  have "Send c \<in> set t"
    using assms Pair by (cases r) (auto simp: projectTask_walk_spec walk_spec_def)
  then have "Send c \<in> set (fst (run_stages (project_stages env s proj)))"
    by (simp add: Pair)
  then show ?thesis
    using run_stages_effects [of "Send c" "project_stages env s proj"] by auto
qed

lemma Chunks_Send:
  assumes "Send c \<in> set (snd (Chunks env s sched))"
  shows "\<exists>projs proj. snd (projects env s) = Inr projs \<and> proj \<in> set projs
           \<and> Send c \<in> set (projectTask env s proj)"
proof (cases "projects env s")
  case (Pair t r)
  have quiet: "Send c \<notin> set t"
    using projects_effects [of env s] Pair by auto
  show ?thesis
  proof (cases r)
    case (Inl err)
    with assms Pair quiet show ?thesis by (simp add: Chunks_def)
  next
    case (Inr projs)
    with assms Pair quiet show ?thesis
      by (auto simp: Chunks_def set_interleave)
  qed
qed

text \<open>
  C6. A chunk that \<open>chunkAction\<close> sends has the provenance of the project, the build and
  the step name it was called with, and its link is
  \<^verbatim>\<open>https://app.circleci.com/pipelines/\<close> followed by the project's VCS type, user name and
  repository name and the build number, separated by slashes. Every chunk sent in a run
  comes from such a call, for a listed project, a build of its build listing and a step of
  that build's step listing: no chunk has another provenance.
\<close>

theorem sent_chunk_provenance:
  "(Send c \<in> set (fst (chunkAction env s proj bld act stepName)) \<longrightarrow>
      SourceMetadata c =
        \<lparr>VcsType = VCS proj, md_Username = Username proj, Repository = RepoName proj,
         BuildNumber = BuildNum bld, BuildStep = stepName,
         Link = ''https://app.circleci.com/pipelines/'' @ VCS proj @ ''/'' @ Username proj
                  @ ''/'' @ RepoName proj @ ''/'' @ fmt_d (BuildNum bld)\<rparr>)
   \<and> (Send c \<in> set (snd (Chunks env s sched)) \<longrightarrow>
       (\<exists>projs p builds b steps step.
          snd (projects env s) = Inr projs \<and> p \<in> set projs
          \<and> snd (buildsForProject env s p) = Inr builds \<and> b \<in> set builds
          \<and> snd (stepsForBuild env s p b) = Inr steps \<and> step \<in> set steps
          \<and> SourceMetadata c =
              \<lparr>VcsType = VCS p, md_Username = Username p, Repository = RepoName p,
               BuildNumber = BuildNum b, BuildStep = Name step,
               Link = ''https://app.circleci.com/pipelines/'' @ VCS p @ ''/'' @ Username p
                        @ ''/'' @ RepoName p @ ''/'' @ fmt_d (BuildNum b)\<rparr>))"
proof (intro conjI impI)
  assume "Send c \<in> set (fst (chunkAction env s proj bld act stepName))"
  then show "SourceMetadata c =
        \<lparr>VcsType = VCS proj, md_Username = Username proj, Repository = RepoName proj,
         BuildNumber = BuildNum bld, BuildStep = stepName,
         Link = ''https://app.circleci.com/pipelines/'' @ VCS proj @ ''/'' @ Username proj
                  @ ''/'' @ RepoName proj @ ''/'' @ fmt_d (BuildNum bld)\<rparr>"
    by (rule chunkAction_Send)
next
  assume "Send c \<in> set (snd (Chunks env s sched))"
  then obtain projs p where listed: "snd (projects env s) = Inr projs" "p \<in> set projs"
    and "Send c \<in> set (projectTask env s p)"
    using Chunks_Send by blast
  then obtain st where "st \<in> set (project_stages env s p)" "Send c \<in> set (fst st)"
    using projectTask_Send by blast
  then obtain builds b steps step a where
    walk: "snd (buildsForProject env s p) = Inr builds" "b \<in> set builds"
      "snd (stepsForBuild env s p b) = Inr steps" "step \<in> set steps"
    and "Send c \<in> set (fst (chunkAction env s p b a (Name step)))"
    using project_stages_Send by blast
  from this(5) have "SourceMetadata c =
        \<lparr>VcsType = VCS p, md_Username = Username p, Repository = RepoName p,
         BuildNumber = BuildNum b, BuildStep = Name step,
         Link = ''https://app.circleci.com/pipelines/'' @ VCS p @ ''/'' @ Username p
                  @ ''/'' @ RepoName p @ ''/'' @ fmt_d (BuildNum b)\<rparr>"
    by (rule chunkAction_Send)
  with listed walk show "\<exists>projs p builds b steps step.
          snd (projects env s) = Inr projs \<and> p \<in> set projs
          \<and> snd (buildsForProject env s p) = Inr builds \<and> b \<in> set builds
          \<and> snd (stepsForBuild env s p b) = Inr steps \<and> step \<in> set steps
          \<and> SourceMetadata c =
              \<lparr>VcsType = VCS p, md_Username = Username p, Repository = RepoName p,
               BuildNumber = BuildNum b, BuildStep = Name step,
               Link = ''https://app.circleci.com/pipelines/'' @ VCS p @ ''/'' @ Username p
                        @ ''/'' @ RepoName p @ ''/'' @ fmt_d (BuildNum b)\<rparr>"
    by blast
qed

theorem sent_chunk_provenance_witness:
  "Send demo_chunk \<in> set (fst (chunkAction demo_env demo_src projA \<lparr>BuildNum = 42\<rparr> demo_action ''test''))
   \<and> Send demo_chunk \<in> set (snd (Chunks demo_env demo_src [3, 0, 1, 1, 0, 2, 0]))
   \<and> SourceMetadata demo_chunk =
       \<lparr>VcsType = VCS projA, md_Username = Username projA, Repository = RepoName projA,
        BuildNumber = BuildNum \<lparr>BuildNum = 42\<rparr>, BuildStep = ''test'',
        Link = ''https://app.circleci.com/pipelines/'' @ VCS projA @ ''/'' @ Username projA
                 @ ''/'' @ RepoName projA @ ''/'' @ fmt_d (BuildNum \<lparr>BuildNum = 42\<rparr>)\<rparr>
   \<and> Link (SourceMetadata demo_chunk) = ''https://app.circleci.com/pipelines/github/acme/api/42''
   \<and> Data demo_chunk = ''line1'' @ newline @ ''line3''"
proof -
  have call: "Send demo_chunk
                \<in> set (fst (chunkAction demo_env demo_src projA \<lparr>BuildNum = 42\<rparr> demo_action ''test''))"
    by code_simp
  have run: "Send demo_chunk \<in> set (snd (Chunks demo_env demo_src [3, 0, 1, 1, 0, 2, 0]))"
    by code_simp
  have link: "Link (SourceMetadata demo_chunk) =
                ''https://app.circleci.com/pipelines/github/acme/api/42''"
    by (simp add: demo_chunk_def)
  have data: "Data demo_chunk = ''line1'' @ newline @ ''line3''"
    by (simp add: demo_chunk_def)
  show ?thesis
    using sent_chunk_provenance
            [of demo_chunk demo_env demo_src projA "\<lparr>BuildNum = 42\<rparr>" demo_action "''test''"]
          call run link data
    by blast
qed

end
